theory Spec2Isabelle
  imports Complex_Main
begin

section \<open>Python values used by the scraper\<close>

text \<open>
  A Python \<open>str\<close> is a sequence of Unicode code points, so a text is a list of natural
  numbers; \<open>U\<close> embeds an ASCII literal.  The euro sign is code point 8364 and the letter
  e-grave is 232.
\<close>

type_synonym ustring = "nat list"

definition U :: "string \<Rightarrow> ustring" where
  "U s = map of_char s"

text \<open>The white space of \<open>str.split\<close>, \<open>str.isspace\<close> and the class \<open>\s\<close>: the table of CPython.\<close>

definition is_space :: "nat \<Rightarrow> bool" where
  "is_space c =
     ((9 \<le> c \<and> c \<le> 13) \<or> (28 \<le> c \<and> c \<le> 32) \<or> c = 133 \<or> c = 160 \<or> c = 5760
      \<or> (8192 \<le> c \<and> c \<le> 8202) \<or> c = 8232 \<or> c = 8233 \<or> c = 8239 \<or> c = 8287
      \<or> c = 12288)"

subsection \<open>The tables of the interpreter\<close>

text \<open>
  The scraper reads three tables of the interpreter that are not part of its source:
  the decimal digits of Unicode (the class \<open>\d\<close> of a \<open>str\<close> pattern and the digits
  that \<open>int\<close> accepts, each with its value), \<open>str.lower\<close> and \<open>str.upper\<close>.  They
  are parameters of the model, and every general theorem below holds for all of them.

  A table of decimal digits gives the value of each decimal digit outside ASCII; what
  is known of every such table is part of the type: a digit has a value below ten and
  is not white space.  The ASCII digits are \<open>0\<close> to \<open>9\<close>.  The case mappings are
  functions on whole strings, since \<open>str.lower\<close> may change the length of a string and
  looks at the context of a letter.
\<close>

typedef dectab = "{d :: nat \<Rightarrow> nat option. \<forall>c v. d c = Some v \<longrightarrow> 128 \<le> c \<and> v < 10 \<and> \<not> is_space c}"
  by (rule exI [of _ "\<lambda>c. None"]) simp

record interp =
  decimal :: dectab
  str_lower :: "ustring \<Rightarrow> ustring"
  str_upper :: "ustring \<Rightarrow> ustring"

definition is_digit :: "interp \<Rightarrow> nat \<Rightarrow> bool" where
  "is_digit py c = ((48 \<le> c \<and> c \<le> 57) \<or> Rep_dectab (decimal py) c \<noteq> None)"

text \<open>\<open>p in s\<close> on two strings: \<open>p\<close> occurs in \<open>s\<close> as a contiguous run.\<close>

fun starts_with :: "ustring \<Rightarrow> ustring \<Rightarrow> bool" where
  "starts_with [] s = True"
| "starts_with (p # ps) [] = False"
| "starts_with (p # ps) (c # cs) = (p = c \<and> starts_with ps cs)"

fun contains :: "ustring \<Rightarrow> ustring \<Rightarrow> bool" where
  "contains p [] = (p = [])"
| "contains p (c # cs) = (starts_with p (c # cs) \<or> contains p cs)"

text \<open>\<open>' '.join(s.split())\<close>: the words of \<open>s\<close>, separated by one space each.\<close>

fun split_from :: "ustring \<Rightarrow> ustring \<Rightarrow> ustring list" where
  "split_from w [] = (if w = [] then [] else [rev w])"
| "split_from w (c # cs) =
     (if is_space c then (if w = [] then split_from [] cs else rev w # split_from [] cs)
      else split_from (c # w) cs)"

definition split :: "ustring \<Rightarrow> ustring list" where
  "split s = split_from [] s"

fun join_space :: "ustring list \<Rightarrow> ustring" where
  "join_space [] = []"
| "join_space [w] = w"
| "join_space (w # v # ws) = w @ 32 # join_space (v # ws)"

text \<open>\<open>str(i)\<close> of a non-negative integer.\<close>

fun str_nat :: "nat \<Rightarrow> ustring" where
  "str_nat n = (if n < 10 then [48 + n] else str_nat (n div 10) @ [48 + n mod 10])"

declare str_nat.simps [simp del]

text \<open>
  \<open>int(s)\<close> of a string.  The interpreter first makes the string ASCII: a code point
  below 127 is kept, white space becomes a space, a decimal digit becomes the ASCII
  digit of its value and anything else becomes a question mark.  Then white space around
  the number and one sign are allowed, and the digits may be grouped by single
  underscores.  \<open>None\<close> stands for the \<open>ValueError\<close>.  The limit on the number of
  digits that an interpreter may be configured with (\<open>sys.set_int_max_str_digits\<close>) is
  taken to be off.
\<close>

definition to_ascii :: "interp \<Rightarrow> nat \<Rightarrow> nat" where
  "to_ascii py c =
     (if c < 127 then c
      else if is_space c then 32
      else case Rep_dectab (decimal py) c of Some v \<Rightarrow> 48 + v | None \<Rightarrow> 63)"

definition is_space_ascii :: "nat \<Rightarrow> bool" where
  "is_space_ascii c = ((9 \<le> c \<and> c \<le> 13) \<or> c = 32)"

fun int_digits :: "bool \<Rightarrow> ustring \<Rightarrow> nat \<Rightarrow> nat option" where
  "int_digits prev [] acc = (if prev then Some acc else None)"
| "int_digits prev (c # cs) acc =
     (if 48 \<le> c \<and> c \<le> 57 then int_digits True cs (10 * acc + (c - 48))
      else if c = 95 \<and> prev then int_digits False cs acc
      else None)"

definition strip :: "ustring \<Rightarrow> ustring" where
  "strip s = rev (dropWhile is_space_ascii (rev (dropWhile is_space_ascii s)))"

definition int_str :: "interp \<Rightarrow> ustring \<Rightarrow> int option" where
  "int_str py s =
     (case strip (map (to_ascii py) s) of
        [] \<Rightarrow> None
      | c # cs \<Rightarrow>
          if c = 45 then map_option (\<lambda>n. - int n) (int_digits False cs 0)
          else if c = 43 then map_option int (int_digits False cs 0)
          else map_option int (int_digits False (c # cs) 0))"

subsection \<open>Floats\<close>

text \<open>
  A float is not-a-number, an infinity or a finite double, kept as the rational number
  it denotes (the two zeros are one value).  \<open>nearest_double n d\<close> is the double nearest
  to \<open>n / d\<close> for \<open>d > 0\<close>, ties to the even mantissa, with 53 bits of mantissa and the
  least exponent \<open>-1074\<close>; \<open>None\<close> when the rounded value is beyond the largest double.
\<close>

datatype pyfloat = NaN | PosInf | NegInf | Fin rat

fun bit_length :: "nat \<Rightarrow> nat" where
  "bit_length n = (if n = 0 then 0 else Suc (bit_length (n div 2)))"

declare bit_length.simps [simp del]

definition round_half_even_div :: "int \<Rightarrow> int \<Rightarrow> int" where
  "round_half_even_div n d =
     (let q = n div d; r = n mod d
      in if 2 * r < d then q else if d < 2 * r then q + 1 else if even q then q else q + 1)"

definition floor_log2 :: "nat \<Rightarrow> nat \<Rightarrow> int" where
  "floor_log2 a d =
     (let k = int (bit_length a) - int (bit_length d)
      in if (if 0 \<le> k then d * 2 ^ nat k \<le> a else d \<le> a * 2 ^ nat (- k)) then k else k - 1)"

definition nearest_double :: "int \<Rightarrow> int \<Rightarrow> rat option" where
  "nearest_double n d =
     (if n = 0 then Some 0
      else
        let a = \<bar>n\<bar>;
            p = max (floor_log2 (nat a) (nat d) - 52) (- 1074);
            m = (if 0 \<le> p then round_half_even_div a (d * 2 ^ nat p)
                 else round_half_even_div (a * 2 ^ nat (- p)) d);
            v = (if 0 \<le> p then of_int (m * 2 ^ nat p) else of_int m / 2 ^ nat (- p))
        in if 2 ^ 1024 \<le> v then None else Some (if n < 0 then - v else v))"

datatype error = RequestException | ValueError | TypeError | ZeroDivisionError | OverflowError
  | AttributeError

text \<open>\<open>n / d\<close> on two integers: the correctly rounded quotient.\<close>

definition truediv :: "int \<Rightarrow> int \<Rightarrow> error + pyfloat" where
  "truediv n d =
     (if d = 0 then Inl ZeroDivisionError
      else case (if 0 < d then nearest_double n d else nearest_double (- n) (- d)) of
             None \<Rightarrow> Inl OverflowError
           | Some v \<Rightarrow> Inr (Fin v))"

text \<open>
  \<open>round(x, 1)\<close>: the exact value of \<open>x\<close> is rounded to one decimal, ties to the even
  digit, and the decimal is read back as the nearest double.
\<close>

definition round_half_even :: "rat \<Rightarrow> int" where
  "round_half_even y =
     (let f = \<lfloor>y\<rfloor>; r = y - of_int f
      in if r < 1 / 2 then f else if 1 / 2 < r then f + 1 else if even f then f else f + 1)"

fun round1 :: "pyfloat \<Rightarrow> error + pyfloat" where
  "round1 (Fin x) =
     (case nearest_double (round_half_even (x * 10)) 10 of
        None \<Rightarrow> Inl OverflowError
      | Some v \<Rightarrow> Inr (Fin v))"
| "round1 x = Inr x"

subsection \<open>Dynamically typed values\<close>

datatype pyval = PNone | PInt int | PStr ustring | PFloat pyfloat

text \<open>\<open>int(v)\<close>, with the exception it raises.\<close>

fun py_int :: "interp \<Rightarrow> pyval \<Rightarrow> error + int" where
  "py_int py PNone = Inl TypeError"
| "py_int py (PInt n) = Inr n"
| "py_int py (PStr s) = (case int_str py s of None \<Rightarrow> Inl ValueError | Some n \<Rightarrow> Inr n)"
| "py_int py (PFloat NaN) = Inl ValueError"
| "py_int py (PFloat PosInf) = Inl OverflowError"
| "py_int py (PFloat NegInf) = Inl OverflowError"
| "py_int py (PFloat (Fin x)) = Inr (if 0 \<le> x then \<lfloor>x\<rfloor> else \<lceil>x\<rceil>)"

section \<open>Regular expressions\<close>

text \<open>
  The patterns of the scraper use literal characters, the classes \<open>\d\<close>, \<open>\D\<close>,
  \<open>\S\<close> and \<open>.\<close> (any character but the line feed), greedy repetition of one class, one capturing group and the end
  anchor.  A pattern is a list of items; \<open>Rep a lo hi\<close> is \<open>a{lo,hi}\<close>, with no upper
  bound when \<open>hi\<close> is \<open>None\<close>.

  \<open>match_at\<close> is the backtracking matcher anchored at the head of the text: a
  repetition first tries one more character and gives it back when the rest of the
  pattern fails.  It returns the text captured by the group.  \<open>search\<close> is
  \<open>re.search\<close>: the first start position, from the left, at which the pattern matches.
\<close>

datatype atom = Lit nat | Digit | NonDigit | NonSpace | AnyChar

datatype item = One atom | Rep atom nat "nat option" | GOpen | GClose | Eos

fun atom_ok :: "interp \<Rightarrow> atom \<Rightarrow> nat \<Rightarrow> bool" where
  "atom_ok py (Lit k) c = (c = k)"
| "atom_ok py Digit c = is_digit py c"
| "atom_ok py NonDigit c = (\<not> is_digit py c)"
| "atom_ok py NonSpace c = (\<not> is_space c)"
| "atom_ok py AnyChar c = (c \<noteq> 10)"

fun match_at :: "interp \<Rightarrow> item list \<Rightarrow> ustring \<Rightarrow> bool \<Rightarrow> ustring \<Rightarrow> ustring option" where
  "match_at py [] s ing acc = Some (rev acc)"
| "match_at py (GOpen # r) s ing acc = match_at py r s True acc"
| "match_at py (GClose # r) s ing acc = match_at py r s False acc"
| "match_at py (Eos # r) s ing acc = (if s = [] \<or> s = [10] then match_at py r s ing acc else None)"
| "match_at py (One a # r) [] ing acc = None"
| "match_at py (One a # r) (c # cs) ing acc =
     (if atom_ok py a c then match_at py r cs ing (if ing then c # acc else acc) else None)"
| "match_at py (Rep a lo hi # r) s ing acc =
     (case (if hi = Some 0 then None
            else (case s of
                    [] \<Rightarrow> None
                  | c # cs \<Rightarrow>
                      if atom_ok py a c
                      then match_at py (Rep a (lo - 1) (map_option (\<lambda>h. h - 1) hi) # r) cs ing
                             (if ing then c # acc else acc)
                      else None)) of
        Some g \<Rightarrow> Some g
      | None \<Rightarrow> if lo = 0 then match_at py r s ing acc else None)"

declare match_at.simps(7) [simp del]

fun search :: "interp \<Rightarrow> item list \<Rightarrow> ustring \<Rightarrow> ustring option" where
  "search py p [] = match_at py p [] False []"
| "search py p (c # cs) =
     (case match_at py p (c # cs) False [] of Some g \<Rightarrow> Some g | None \<Rightarrow> search py p cs)"

definition lits :: "string \<Rightarrow> item list" where
  "lits s = map (\<lambda>c. One (Lit (of_char c))) s"

text \<open>\<open>_extract_pattern\<close>: the group of the first pattern, in list order, that matches.\<close>

fun extract_pattern :: "interp \<Rightarrow> ustring \<Rightarrow> item list list \<Rightarrow> ustring option" where
  "extract_pattern py text [] = None"
| "extract_pattern py text (pattern # patterns) =
     (case search py pattern text of Some g \<Rightarrow> Some g | None \<Rightarrow> extract_pattern py text patterns)"

definition cost_patterns :: "item list list" where
  "cost_patterns =
     [ [One (Lit 8364), One (Lit 32), GOpen, Rep Digit 1 None, One (Lit 46), Rep Digit 1 None,
        One (Lit 46), Rep Digit 1 None, GClose],
       [One (Lit 8364), One (Lit 32), GOpen, Rep Digit 1 None, One (Lit 46), Rep Digit 1 None,
        GClose] ]"

definition floor_patterns :: "item list list" where
  "floor_patterns =
     [ lits ''piano '' @ [GOpen, Rep Digit 1 (Some 2), GClose],
       [GOpen, Rep Digit 1 (Some 2), GClose] @ lits '' piano'',
       [GOpen, Rep Digit 1 (Some 2), GClose] @ lits '' piani'' ]"

definition area_pattern :: "item list" where
  "area_pattern = lits ''superficie '' @ [GOpen, Rep Digit 1 (Some 4), GClose] @ lits '' m''"

definition energy_patterns :: "item list list" where
  "energy_patterns =
     [ lits ''energetica '' @ [GOpen, Rep NonDigit 1 (Some 2), GClose, One (Lit 32)],
       lits ''energetica'' @ [GOpen, Rep NonSpace 1 (Some 2), GClose] ]"

definition car_patterns :: "item list list" where
  "car_patterns =
     [ lits ''post'' @ [One NonSpace] @ lits '' auto '' @ [GOpen, Rep Digit 1 (Some 2), GClose] ]"

definition car_on_request_pattern :: "item list" where
  "car_on_request_pattern =
     lits ''possibilit'' @ [One NonSpace, Rep AnyChar 0 (Some 10)] @ lits ''auto''"

definition link_pattern :: "item list" where
  "link_pattern = [Rep Digit 1 None, One (Lit 47), Eos]"

section \<open>The scraper object, the web and the log\<close>

text \<open>
  The object holds the configuration given to the constructor, with the types of its
  annotations, and the two attributes \<open>urls_attr\<close> and \<open>df_attr\<close> (\<open>self.urls_\<close> and \<open>self.df_\<close>) that the methods set
  (\<open>None\<close> while the attribute does not exist).  The search address \<open>self.url\<close> is the
  field \<open>url_0\<close>, and the record of one listing has the fields of the named tuple
  \<open>House\<close>, its \<open>floor\<close> spelled \<open>floor_h\<close>.  A local variable that has the name of
  a field carries a prime.
\<close>

record house =
  cost :: pyval
  price_per_area :: pyval
  floor_h :: pyval
  area :: pyval
  ultimo :: bool
  url :: ustring
  energy :: pyval
  posto_auto :: pyval

record immobiliare =
  url_0 :: ustring
  verbose :: bool
  min_house_cost :: int
  browse_all_pages :: bool
  wait :: int
  area_not_found :: int
  price_not_found :: pyfloat
  floor_not_found :: int
  car_not_found :: int
  energy_not_found :: ustring
  invalid_price_per_area :: int
  urls_attr :: "ustring list option"
  df_attr :: "house list option"

text \<open>The constructor, with its default arguments.\<close>

definition init :: "ustring \<Rightarrow> immobiliare" where
  "init u =
     \<lparr> url_0 = u, verbose = True, min_house_cost = 100, browse_all_pages = True, wait = 100,
       area_not_found = 0, price_not_found = NaN, floor_not_found = 0, car_not_found = 0,
       energy_not_found = U ''n/a'', invalid_price_per_area = 0, urls_attr = None, df_attr = None \<rparr>"

text \<open>
  The web answers a request with a document, with a timeout or with another failure of
  the transport (\<open>requests\<close> raises an exception that is not a \<open>Timeout\<close>).  A document
  is what the parser gives for the bytes received: the text of the page and the
  \<open>href\<close> of every anchor, \<open>None\<close> for an anchor without one.  The world records the
  requests made and the messages passed to \<open>_say\<close>, in order.
\<close>

record doc =
  soup_text :: ustring
  soup_hrefs :: "ustring option list"

definition empty_doc :: doc where
  "empty_doc = \<lparr> soup_text = [], soup_hrefs = [] \<rparr>"

datatype response = Content doc | Timeout | Failure

datatype msg =
    Timeout_reaching ustring
  | Too_low_price int ustring
  | Price_upon_request ustring
  | Cant_get_price ustring
  | Energy_pending ustring
  | Cant_get_energy ustring
  | Car_upon_request ustring
  | Processing_page nat
  | Urls_stored
  | Found_houses nat
  | Results_stored

record world =
  requests :: "ustring list"
  said :: "msg list"

definition say :: "msg \<Rightarrow> world \<Rightarrow> world" where
  "say m w = w\<lparr>said := said w @ [m]\<rparr>"

definition get_page :: "(ustring \<Rightarrow> response) \<Rightarrow> ustring \<Rightarrow> world \<Rightarrow> (error + doc) \<times> world" where
  "get_page web u w =
     (let w1 = w\<lparr>requests := requests w @ [u]\<rparr>
      in case web u of
           Content page \<Rightarrow> (Inr page, w1)
         | Timeout \<Rightarrow> (Inr empty_doc, say (Timeout_reaching u) w1)
         | Failure \<Rightarrow> (Inl RequestException, w1))"

definition get_text :: "(ustring \<Rightarrow> response) \<Rightarrow> ustring \<Rightarrow> world \<Rightarrow> (error + ustring) \<times> world" where
  "get_text web u w =
     (case get_page web u w of
        (Inl e, w1) \<Rightarrow> (Inl e, w1)
      | (Inr page, w1) \<Rightarrow> (Inr (join_space (split (soup_text page))), w1))"

section \<open>Extraction of one listing: \<open>_get_data\<close>\<close>

text \<open>
  The body of \<open>_get_data\<close> is a sequence of blocks, one for each field; each block is a
  definition here, on the lower-cased text \<open>t\<close> of the page.
\<close>

text \<open>
  The cost: the group of the first cost pattern that matches, its dots removed.  Below
  \<open>min_house_cost\<close> it is replaced by \<open>None\<close>; without a match it is
  \<open>price_not_found\<close>.  The field keeps the string of digits; it is never converted.
\<close>

definition cost_step ::
  "interp \<Rightarrow> immobiliare \<Rightarrow> ustring \<Rightarrow> ustring \<Rightarrow> world \<Rightarrow> (error + pyval) \<times> world" where
  "cost_step py self sub_url t w =
     (let not_found =
            (if contains (U ''prezzo su richiesta'') t
             then (Inr (PFloat (price_not_found self)), say (Price_upon_request sub_url) w)
             else (Inr (PFloat (price_not_found self)), say (Cant_get_price sub_url) w))
      in case extract_pattern py t cost_patterns of
           None \<Rightarrow> not_found
         | Some c \<Rightarrow>
             if c = [] then not_found
             else
               (let cost' = filter (\<lambda>x. x \<noteq> 46) c
                in case int_str py cost' of
                     None \<Rightarrow> (Inl ValueError, w)
                   | Some n \<Rightarrow>
                       if n < min_house_cost self
                       then (Inr PNone, say (Too_low_price n sub_url) w)
                       else (Inr (PStr cost'), w)))"

definition floor_step :: "interp \<Rightarrow> ustring \<Rightarrow> pyval" where
  "floor_step py t =
     (let floor' = (case extract_pattern py t floor_patterns of None \<Rightarrow> PNone | Some g \<Rightarrow> PStr g)
      in if contains (U ''piano terra'') t then PInt 1 else floor')"

definition area_step :: "interp \<Rightarrow> immobiliare \<Rightarrow> ustring \<Rightarrow> pyval" where
  "area_step py self t =
     (case extract_pattern py t [area_pattern] of
        None \<Rightarrow> PInt (area_not_found self)
      | Some g \<Rightarrow> PStr g)"

definition energy_step ::
  "interp \<Rightarrow> immobiliare \<Rightarrow> ustring \<Rightarrow> ustring \<Rightarrow> world \<Rightarrow> pyval \<times> world" where
  "energy_step py self sub_url t w =
     (let not_found =
            (if contains (U ''in attesa di certificazione'') t
             then (PStr (energy_not_found self), say (Energy_pending sub_url) w)
             else (PStr (energy_not_found self), say (Cant_get_energy sub_url) w))
      in case extract_pattern py t energy_patterns of
           None \<Rightarrow> not_found
         | Some [] \<Rightarrow> not_found
         | Some (c # cs) \<Rightarrow>
             if contains [c] (U ''ABCDEF'') \<and> contains [last (c # cs)] (U ''0123456789+'')
             then (PStr (str_upper py (c # cs)), w)
             else not_found)"

definition car_step ::
  "interp \<Rightarrow> immobiliare \<Rightarrow> ustring \<Rightarrow> ustring \<Rightarrow> world \<Rightarrow> pyval \<times> world" where
  "car_step py self sub_url t w =
     (case extract_pattern py t car_patterns of
        Some g \<Rightarrow> (PStr g, w)
      | None \<Rightarrow>
          (case search py car_on_request_pattern t of
             Some m \<Rightarrow> (PInt 0, say (Car_upon_request sub_url) w)
           | None \<Rightarrow> (PInt (car_not_found self), w)))"

text \<open>
  \<open>round(int(cost) / int(area), 1)\<close> inside \<open>try\<close>, and the bare \<open>except\<close> that
  answers every exception with \<open>invalid_price_per_area\<close>.
\<close>

definition price_per_area_step ::
  "interp \<Rightarrow> immobiliare \<Rightarrow> pyval \<Rightarrow> pyval \<Rightarrow> pyval" where
  "price_per_area_step py self cost' area' =
     (case py_int py cost' of
        Inl e \<Rightarrow> PInt (invalid_price_per_area self)
      | Inr c \<Rightarrow>
          (case py_int py area' of
             Inl e \<Rightarrow> PInt (invalid_price_per_area self)
           | Inr a \<Rightarrow>
               (case truediv c a of
                  Inl e \<Rightarrow> PInt (invalid_price_per_area self)
                | Inr q \<Rightarrow>
                    (case round1 q of
                       Inl e \<Rightarrow> PInt (invalid_price_per_area self)
                     | Inr r \<Rightarrow> PFloat r))))"

definition get_data ::
  "interp \<Rightarrow> (ustring \<Rightarrow> response) \<Rightarrow> immobiliare \<Rightarrow> ustring \<Rightarrow> world \<Rightarrow> (error + house) \<times> world" where
  "get_data py web self sub_url w =
     (case get_text web sub_url w of
        (Inl e, w1) \<Rightarrow> (Inl e, w1)
      | (Inr text, w1) \<Rightarrow>
          (let t = str_lower py text
           in case cost_step py self sub_url t w1 of
                (Inl e, w2) \<Rightarrow> (Inl e, w2)
              | (Inr cost', w2) \<Rightarrow>
                  (let floor' = floor_step py t;
                       ultimo' = contains (U ''ultimo'') t;
                       area' = area_step py self t
                   in case energy_step py self sub_url t w2 of
                        (energy', w3) \<Rightarrow>
                          (case car_step py self sub_url t w3 of
                             (car, w4) \<Rightarrow>
                               (Inr \<lparr> cost = cost',
                                      price_per_area = price_per_area_step py self cost' area',
                                      floor_h = floor', area = area', ultimo = ultimo',
                                      url = sub_url, energy = energy', posto_auto = car \<rparr>,
                                w4)))))"

section \<open>Discovery of the listings: \<open>get_all_urls\<close>\<close>

text \<open>The anchors that are kept: the loop over \<open>soup.find_all("a")\<close> with its filter.\<close>

fun listing_links :: "interp \<Rightarrow> ustring option list \<Rightarrow> ustring list" where
  "listing_links py [] = []"
| "listing_links py (None # links) = listing_links py links"
| "listing_links py (Some l # links) =
     (if l \<noteq> [] \<and> contains (U ''https'') l \<and> contains (U ''annunci'') l
         \<and> search py link_pattern l \<noteq> None
      then l # listing_links py links
      else listing_links py links)"

definition page_url :: "immobiliare \<Rightarrow> nat \<Rightarrow> ustring" where
  "page_url self i = url_0 self @ U ''&pag='' @ str_nat i"

definition last_page :: "ustring \<Rightarrow> bool" where
  "last_page t =
     (contains (U ''404 not found'') t \<or> contains (U ''non '' @ [232] @ U '' presente'') t)"

text \<open>
  The loop \<open>for i in range(2, 10_000)\<close>, from page \<open>i\<close> on: the text of the page is
  fetched and tested, and the page is fetched a second time for its anchors.
\<close>

function pages_from ::
  "interp \<Rightarrow> (ustring \<Rightarrow> response) \<Rightarrow> immobiliare \<Rightarrow> nat \<Rightarrow> ustring list \<Rightarrow> world
     \<Rightarrow> (error + ustring list) \<times> world" where
  "pages_from py web self i urls w =
     (if i < 10000 then
        (let w1 = say (Processing_page i) w;
             curr_url = page_url self i
         in case get_text web curr_url w1 of
              (Inl e, w2) \<Rightarrow> (Inl e, w2)
            | (Inr text, w2) \<Rightarrow>
                if last_page (str_lower py text) then (Inr urls, w2)
                else
                  (case get_page web curr_url w2 of
                     (Inl e, w3) \<Rightarrow> (Inl e, w3)
                   | (Inr page, w3) \<Rightarrow>
                       pages_from py web self (i + 1) (urls @ listing_links py (soup_hrefs page)) w3))
      else (Inr urls, w))"
  by pat_completeness auto
termination
  by (relation "measure (\<lambda>(py, web, self, i, urls, w). 10000 - i)") auto

declare pages_from.simps [simp del]

definition get_all_urls ::
  "interp \<Rightarrow> (ustring \<Rightarrow> response) \<Rightarrow> immobiliare \<Rightarrow> world \<Rightarrow> (error + immobiliare) \<times> world" where
  "get_all_urls py web self w =
     (case get_page web (url_0 self) (say (Processing_page 1) w) of
        (Inl e, w1) \<Rightarrow> (Inl e, w1)
      | (Inr page, w1) \<Rightarrow>
          (let urls = listing_links py (soup_hrefs page)
           in case (if browse_all_pages self then pages_from py web self 2 urls w1
                    else (Inr urls, w1)) of
                (Inl e, w2) \<Rightarrow> (Inl e, w2)
              | (Inr urls, w2) \<Rightarrow>
                  (Inr (self\<lparr>urls_attr := Some urls\<rparr>),
                   say (Found_houses (length urls)) (say Urls_stored w2))))"

text \<open>
  Two readings of the web used to state what discovery collects: the anchors that
  \<open>get_all_urls\<close> keeps from the page at an address, and whether the text of that page
  ends the pagination.  A timeout gives the empty document.
\<close>

definition links_at :: "interp \<Rightarrow> (ustring \<Rightarrow> response) \<Rightarrow> ustring \<Rightarrow> ustring list" where
  "links_at py web u =
     (case web u of
        Content page \<Rightarrow> listing_links py (soup_hrefs page)
      | Timeout \<Rightarrow> []
      | Failure \<Rightarrow> [])"

definition stops_at :: "interp \<Rightarrow> (ustring \<Rightarrow> response) \<Rightarrow> ustring \<Rightarrow> bool" where
  "stops_at py web u =
     (case web u of
        Content page \<Rightarrow> last_page (str_lower py (join_space (split (soup_text page))))
      | Timeout \<Rightarrow> last_page (str_lower py [])
      | Failure \<Rightarrow> False)"

section \<open>The crawl: \<open>find_all_houses\<close>\<close>

text \<open>
  \<open>executor.map\<close> runs \<open>_get_data\<close> on every address and keeps the outcomes in the order
  of the addresses; the workers are run one after the other here.  \<open>list\<close> then
  raises the first exception among the outcomes, if there is one.
\<close>

fun executor_map ::
  "(ustring \<Rightarrow> world \<Rightarrow> (error + house) \<times> world) \<Rightarrow> ustring list \<Rightarrow> world
     \<Rightarrow> (error + house) list \<times> world" where
  "executor_map f [] w = ([], w)"
| "executor_map f (u # us) w =
     (case f u w of (r, w1) \<Rightarrow> (case executor_map f us w1 of (rs, w2) \<Rightarrow> (r # rs, w2)))"

fun list_results :: "(error + house) list \<Rightarrow> error + house list" where
  "list_results [] = Inr []"
| "list_results (Inl e # rs) = Inl e"
| "list_results (Inr h # rs) = (case list_results rs of Inl e \<Rightarrow> Inl e | Inr hs \<Rightarrow> Inr (h # hs))"

definition find_all_houses ::
  "interp \<Rightarrow> (ustring \<Rightarrow> response) \<Rightarrow> immobiliare \<Rightarrow> world \<Rightarrow> (error + immobiliare) \<times> world" where
  "find_all_houses py web self w =
     (case (case urls_attr self of None \<Rightarrow> get_all_urls py web self w | Some us \<Rightarrow> (Inr self, w)) of
        (Inl e, w1) \<Rightarrow> (Inl e, w1)
      | (Inr self1, w1) \<Rightarrow>
          (case urls_attr self1 of
             None \<Rightarrow> (Inl AttributeError, w1)
           | Some us \<Rightarrow>
               (case executor_map (get_data py web self1) us w1 of
                  (results, w2) \<Rightarrow>
                    (case list_results results of
                       Inl e \<Rightarrow> (Inl e, w2)
                     | Inr all_results \<Rightarrow>
                         (Inr (self1\<lparr>df_attr := Some all_results\<rparr>), say Results_stored w2)))))"

section \<open>Inputs for the examples\<close>

text \<open>
  The examples are run with the part of the tables that they need: the Arabic-Indic and
  the fullwidth digits as decimal digits outside ASCII, and the case mappings of the
  letters of Basic Latin and Latin-1.
\<close>

definition some_decimals :: "nat \<Rightarrow> nat option" where
  "some_decimals c =
     (if 1632 \<le> c \<and> c \<le> 1641 then Some (c - 1632)
      else if 65296 \<le> c \<and> c \<le> 65305 then Some (c - 65296)
      else None)"

definition lower_cp :: "nat \<Rightarrow> nat" where
  "lower_cp c =
     (if (65 \<le> c \<and> c \<le> 90) \<or> (192 \<le> c \<and> c \<le> 222 \<and> c \<noteq> 215) then c + 32 else c)"

definition upper_cp :: "nat \<Rightarrow> ustring" where
  "upper_cp c =
     (if (97 \<le> c \<and> c \<le> 122) \<or> (224 \<le> c \<and> c \<le> 254 \<and> c \<noteq> 247) then [c - 32]
      else if c = 223 then [83, 83]
      else if c = 255 then [376]
      else if c = 181 then [924]
      else [c])"

definition py0 :: interp where
  "py0 = \<lparr> decimal = Abs_dectab some_decimals, str_lower = map lower_cp,
           str_upper = (\<lambda>s. concat (map upper_cp s)) \<rparr>"

text \<open>
  The world before the first request, and a web of one page: the address \<open>u\<close> answers
  with a document of the given text and no anchors, every other address fails.
\<close>

definition w0 :: world where
  "w0 = \<lparr> requests = [], said = [] \<rparr>"

definition one_page :: "ustring \<Rightarrow> ustring \<Rightarrow> ustring \<Rightarrow> response" where
  "one_page u text x = (if x = u then Content \<lparr> soup_text = text, soup_hrefs = [] \<rparr> else Failure)"

text \<open>
  Two listings, the first answering with a page and the second with a timeout; a site
  of three result pages whose third page says that it is not present; a site whose
  second result page fails; and a site that goes on beyond the last page the loop can
  reach, with one listing on every page and the notice on page 10001.
\<close>

definition two_listings :: "ustring \<Rightarrow> response" where
  "two_listings x =
     (if x = U ''a''
      then Content \<lparr> soup_text = U ''Bilocale '' @ [8364] @ U '' 150.000 Superficie 50 m'',
                     soup_hrefs = [] \<rparr>
      else if x = U ''b'' then Timeout
      else Failure)"

definition small_site :: "ustring \<Rightarrow> response" where
  "small_site x =
     (if x = U ''s''
      then Content \<lparr> soup_text = U ''Annunci'',
                     soup_hrefs = [Some (U ''https://x/annunci/11/''), None,
                                   Some (U ''https://x/about/'')] \<rparr>
      else if x = U ''s&pag=2''
      then Content \<lparr> soup_text = U ''Annunci'',
                     soup_hrefs = [Some (U ''https://x/annunci/12/'')] \<rparr>
      else if x = U ''s&pag=3''
      then Content \<lparr> soup_text = U ''La pagina  Non '' @ [232] @ U '' presente'',
                     soup_hrefs = [Some (U ''https://x/annunci/13/'')] \<rparr>
      else Failure)"

definition broken_site :: "ustring \<Rightarrow> response" where
  "broken_site x =
     (if x = U ''s''
      then Content \<lparr> soup_text = U ''Annunci'',
                     soup_hrefs = [Some (U ''https://x/annunci/11/'')] \<rparr>
      else if x = U ''s&pag=3''
      then Content \<lparr> soup_text = U ''404 Not Found'', soup_hrefs = [] \<rparr>
      else Failure)"

definition endless_site :: "ustring \<Rightarrow> response" where
  "endless_site x =
     (if x = U ''s&pag=10001''
      then Content \<lparr> soup_text = U ''404 Not Found'', soup_hrefs = [] \<rparr>
      else Content \<lparr> soup_text = U ''Annunci'',
                     soup_hrefs = [Some (U ''https://x/annunci/1/'')] \<rparr>)"

section \<open>Facts about the matcher\<close>

lemma match_at_Rep_Nil:
  "match_at py (Rep a lo hi # r) [] ing acc = (if lo = 0 then match_at py r [] ing acc else None)"
  by (simp add: match_at.simps(7))

lemma match_at_Rep_Cons:
  "match_at py (Rep a lo hi # r) (c # cs) ing acc =
     (case (if hi = Some 0 \<or> \<not> atom_ok py a c then None
            else match_at py (Rep a (lo - 1) (map_option (\<lambda>h. h - 1) hi) # r) cs ing
                   (if ing then c # acc else acc)) of
        Some g \<Rightarrow> Some g
      | None \<Rightarrow> if lo = 0 then match_at py r (c # cs) ing acc else None)"
  by (simp add: match_at.simps(7))

lemma rep_decomp:
  "match_at py (Rep a lo hi # r) s ing acc = Some g \<Longrightarrow>
   \<exists>ds s'. s = ds @ s' \<and> list_all (atom_ok py a) ds \<and> lo \<le> length ds
      \<and> (\<forall>h. hi = Some h \<longrightarrow> length ds \<le> h)
      \<and> match_at py r s' ing ((if ing then rev ds else []) @ acc) = Some g"
proof (induction s arbitrary: lo hi acc)
  case Nil
  then have "lo = 0" and "match_at py r [] ing acc = Some g"
    by (auto simp: match_at_Rep_Nil split: if_splits)
  then have "[] = [] @ ([] :: ustring) \<and> list_all (atom_ok py a) [] \<and> lo \<le> length ([] :: ustring)
        \<and> (\<forall>h. hi = Some h \<longrightarrow> length ([] :: ustring) \<le> h)
        \<and> match_at py r [] ing ((if ing then rev [] else []) @ acc) = Some g"
    by (cases ing) simp_all
  then show ?case by blast
next
  case (Cons c cs)
  let ?inner = "if hi = Some 0 \<or> \<not> atom_ok py a c then None
     else match_at py (Rep a (lo - 1) (map_option (\<lambda>h. h - 1) hi) # r) cs ing
            (if ing then c # acc else acc)"
  show ?case
  proof (cases ?inner)
    case None
    with Cons.prems have "lo = 0" and "match_at py r (c # cs) ing acc = Some g"
      by (auto simp: match_at_Rep_Cons split: if_splits)
    then have "c # cs = [] @ (c # cs) \<and> list_all (atom_ok py a) [] \<and> lo \<le> length ([] :: ustring)
        \<and> (\<forall>h. hi = Some h \<longrightarrow> length ([] :: ustring) \<le> h)
        \<and> match_at py r (c # cs) ing ((if ing then rev [] else []) @ acc) = Some g"
      by (cases ing) simp_all
    then show ?thesis by blast
  next
    case (Some g')
    with Cons.prems have g: "g' = g"
      by (simp add: match_at_Rep_Cons)
    from Some g have hi: "hi \<noteq> Some 0" and ok: "atom_ok py a c"
      and rec: "match_at py (Rep a (lo - 1) (map_option (\<lambda>h. h - 1) hi) # r) cs ing
                 (if ing then c # acc else acc) = Some g"
      by (auto split: if_splits)
    from Cons.IH [OF rec] obtain ds s' where
      d: "cs = ds @ s'" "list_all (atom_ok py a) ds" "lo - 1 \<le> length ds"
         "\<forall>h. map_option (\<lambda>h. h - 1) hi = Some h \<longrightarrow> length ds \<le> h"
         "match_at py r s' ing ((if ing then rev ds else []) @ (if ing then c # acc else acc)) = Some g"
      by blast
    have "\<forall>h. hi = Some h \<longrightarrow> Suc (length ds) \<le> h"
      using d(4) hi by (cases hi) auto
    with d ok g have "c # cs = (c # ds) @ s' \<and> list_all (atom_ok py a) (c # ds) \<and> lo \<le> length (c # ds)
        \<and> (\<forall>h. hi = Some h \<longrightarrow> length (c # ds) \<le> h)
        \<and> match_at py r s' ing ((if ing then rev (c # ds) else []) @ acc) = Some g"
      by (cases ing) auto
    then show ?thesis by blast
  qed
qed

lemma one_decomp:
  "match_at py (One a # r) s ing acc = Some g \<Longrightarrow>
   \<exists>c s'. s = c # s' \<and> atom_ok py a c \<and> match_at py r s' ing ((if ing then [c] else []) @ acc) = Some g"
  by (cases s) (auto split: if_splits)

lemma match_at_chars:
  "match_at py p s ing acc = Some g \<Longrightarrow> set g \<subseteq> set acc \<union> set s"
proof (induction py p s ing acc rule: match_at.induct)
  case (7 py a lo hi r s ing acc)
  show ?case
  proof (cases s)
    case Nil
    with "7.prems" have "lo = 0" and m: "match_at py r s ing acc = Some g"
      by (auto simp: match_at_Rep_Nil split: if_splits)
    have "(if hi = Some 0 then None
           else case s of [] \<Rightarrow> None
                | c # cs \<Rightarrow>
                    if atom_ok py a c
                    then match_at py (Rep a (lo - 1) (map_option (\<lambda>h. h - 1) hi) # r) cs ing
                           (if ing then c # acc else acc)
                    else None) = None"
      using Nil by simp
    from "7.IH"(2) [OF this \<open>lo = 0\<close> m] show ?thesis .
  next
    case (Cons c cs)
    let ?inner = "if hi = Some 0 \<or> \<not> atom_ok py a c then None
       else match_at py (Rep a (lo - 1) (map_option (\<lambda>h. h - 1) hi) # r) cs ing
              (if ing then c # acc else acc)"
    show ?thesis
    proof (cases ?inner)
      case None
      with "7.prems" Cons have "lo = 0" and m: "match_at py r s ing acc = Some g"
        by (auto simp: match_at_Rep_Cons split: if_splits)
      have "(if hi = Some 0 then None
             else case s of [] \<Rightarrow> None
                  | c # cs \<Rightarrow>
                      if atom_ok py a c
                      then match_at py (Rep a (lo - 1) (map_option (\<lambda>h. h - 1) hi) # r) cs ing
                             (if ing then c # acc else acc)
                      else None) = None"
        using None Cons by (auto split: if_splits)
      from "7.IH"(2) [OF this \<open>lo = 0\<close> m] show ?thesis .
    next
      case (Some g')
      with "7.prems" Cons have "g' = g"
        by (simp add: match_at_Rep_Cons)
      with Some have hi: "hi \<noteq> Some 0" and ok: "atom_ok py a c"
        and rec: "match_at py (Rep a (lo - 1) (map_option (\<lambda>h. h - 1) hi) # r) cs ing
                   (if ing then c # acc else acc) = Some g"
        by (auto split: if_splits)
      from "7.IH"(1) [OF hi Cons ok rec] show ?thesis
        using Cons by (auto split: if_splits)
    qed
  qed
qed (auto split: if_splits)

lemma search_chars: "search py p s = Some g \<Longrightarrow> set g \<subseteq> set s"
proof (induction py p s rule: search.induct)
  case (1 py p)
  then show ?case using match_at_chars [of py p "[]" False "[]" g] by simp
next
  case (2 py p c cs)
  show ?case
  proof (cases "match_at py p (c # cs) False []")
    case None
    with 2 show ?thesis by auto
  next
    case (Some g')
    with 2 have "match_at py p (c # cs) False [] = Some g" by simp
    then show ?thesis using match_at_chars [of py p "c # cs" False "[]" g] by simp
  qed
qed

lemma extract_pattern_chars: "extract_pattern py t ps = Some g \<Longrightarrow> set g \<subseteq> set t"
  by (induction ps) (auto split: option.splits dest: search_chars)

lemma search_match: "search py p s = Some g \<Longrightarrow> \<exists>s'. match_at py p s' False [] = Some g"
proof (induction py p s rule: search.induct)
  case (1 py p)
  then show ?case by auto
next
  case (2 py p c cs)
  then show ?case by (cases "match_at py p (c # cs) False []") auto
qed

lemma digits_step:
  assumes "match_at py (Rep Digit 1 hi # r) s True acc = Some g"
  shows "\<exists>ds s'. ds \<noteq> [] \<and> list_all (is_digit py) ds \<and> match_at py r s' True (rev ds @ acc) = Some g"
proof -
  from rep_decomp [OF assms] obtain ds s' where
    "list_all (atom_ok py Digit) ds" "1 \<le> length ds"
    "match_at py r s' True ((if True then rev ds else []) @ acc) = Some g"
    by blast
  then have "ds \<noteq> [] \<and> list_all (is_digit py) ds \<and> match_at py r s' True (rev ds @ acc) = Some g"
    by (auto simp: list_all_iff)
  then show ?thesis by blast
qed

lemma lit_step_in:
  "match_at py (One (Lit k) # r) s True acc = Some g \<Longrightarrow> \<exists>s'. match_at py r s' True (k # acc) = Some g"
  by (cases s) (auto split: if_splits)

lemma lit_step_out:
  "match_at py (One (Lit k) # r) s False acc = Some g \<Longrightarrow> \<exists>s'. match_at py r s' False acc = Some g"
  by (cases s) (auto split: if_splits)

lemma dectab_facts:
  assumes "Rep_dectab d c = Some v"
  shows "128 \<le> c" and "v < 10" and "\<not> is_space c"
  using assms Rep_dectab [of d] by auto

lemma is_digit_to_ascii:
  assumes "is_digit py c"
  shows "48 \<le> to_ascii py c \<and> to_ascii py c \<le> 57"
proof (cases "48 \<le> c \<and> c \<le> 57")
  case True
  then show ?thesis by (simp add: to_ascii_def)
next
  case False
  with assms obtain v where v: "Rep_dectab (decimal py) c = Some v"
    by (auto simp: is_digit_def)
  from dectab_facts [OF v] v show ?thesis
    by (simp add: to_ascii_def)
qed

lemma int_digits_total:
  "\<forall>c\<in>set ds. 48 \<le> c \<and> c \<le> 57 \<Longrightarrow> ds \<noteq> [] \<or> prev \<Longrightarrow> \<exists>n. int_digits prev ds acc = Some n"
  by (induction ds arbitrary: prev acc) auto

lemma strip_digits:
  assumes "\<forall>c\<in>set ds. 48 \<le> c \<and> c \<le> 57"
  shows "strip ds = ds"
proof (cases ds)
  case Nil
  then show ?thesis by (simp add: strip_def)
next
  case (Cons c cs)
  with assms have 1: "dropWhile is_space_ascii ds = ds"
    by (simp add: is_space_ascii_def)
  from assms Cons have "48 \<le> last ds \<and> last ds \<le> 57"
    by (metis last_in_set list.discI)
  then have "dropWhile is_space_ascii (rev ds) = rev ds"
    by (simp add: dropWhile_eq_self_iff hd_rev is_space_ascii_def)
  with 1 show ?thesis by (simp add: strip_def)
qed

lemma int_str_digits:
  assumes "list_all (is_digit py) ds" and "ds \<noteq> []"
  shows "\<exists>n. int_str py ds = Some n"
proof -
  let ?as = "map (to_ascii py) ds"
  have all: "\<forall>c\<in>set ?as. 48 \<le> c \<and> c \<le> 57"
    using assms(1) is_digit_to_ascii by (auto simp: list_all_iff)
  obtain c cs where as: "?as = c # cs" using assms(2) by (cases ds) auto
  with all have "48 \<le> c \<and> c \<le> 57" by (metis list.set_intros(1))
  then have "c \<noteq> 45" "c \<noteq> 43" by auto
  moreover obtain n where "int_digits False (c # cs) 0 = Some n"
    using int_digits_total [OF all, of False 0] as by auto
  ultimately show ?thesis
    using strip_digits [OF all] as by (simp add: int_str_def)
qed

lemma is_digit_not_dot: "is_digit py c \<Longrightarrow> c \<noteq> 46"
  by (auto simp: is_digit_def dest: dectab_facts(1))

lemma filter_dot_digits: "list_all (is_digit py) ds \<Longrightarrow> filter (\<lambda>x. x \<noteq> 46) ds = ds"
  by (induction ds) (auto dest: is_digit_not_dot)

lemma cost_group_3:
  assumes "match_at py (cost_patterns ! 0) s False [] = Some g"
  shows "\<exists>d1 d2 d3. g = d1 @ 46 # d2 @ 46 # d3 \<and> d1 \<noteq> [] \<and> list_all (is_digit py) d1
           \<and> d2 \<noteq> [] \<and> list_all (is_digit py) d2 \<and> d3 \<noteq> [] \<and> list_all (is_digit py) d3"
proof -
  from assms have "match_at py [One (Lit 8364), One (Lit 32), GOpen, Rep Digit 1 None, One (Lit 46),
      Rep Digit 1 None, One (Lit 46), Rep Digit 1 None, GClose] s False [] = Some g"
    by (simp add: cost_patterns_def)
  from lit_step_out [OF this] obtain s1 where
    "match_at py [One (Lit 32), GOpen, Rep Digit 1 None, One (Lit 46),
      Rep Digit 1 None, One (Lit 46), Rep Digit 1 None, GClose] s1 False [] = Some g" by blast
  from lit_step_out [OF this] obtain s2 where
    "match_at py (Rep Digit 1 None # [One (Lit 46), Rep Digit 1 None, One (Lit 46), Rep Digit 1 None, GClose])
       s2 True [] = Some g" by auto
  from digits_step [OF this] obtain d1 s3 where d1: "d1 \<noteq> []" "list_all (is_digit py) d1"
    and "match_at py (One (Lit 46) # [Rep Digit 1 None, One (Lit 46), Rep Digit 1 None, GClose])
       s3 True (rev d1 @ []) = Some g" by blast
  from lit_step_in [OF this(3)] obtain s4 where
    "match_at py (Rep Digit 1 None # [One (Lit 46), Rep Digit 1 None, GClose]) s4 True (46 # rev d1 @ []) = Some g"
    by blast
  from digits_step [OF this] obtain d2 s5 where d2: "d2 \<noteq> []" "list_all (is_digit py) d2"
    and "match_at py (One (Lit 46) # [Rep Digit 1 None, GClose]) s5 True (rev d2 @ 46 # rev d1 @ []) = Some g"
    by blast
  from lit_step_in [OF this(3)] obtain s6 where
    "match_at py (Rep Digit 1 None # [GClose]) s6 True (46 # rev d2 @ 46 # rev d1 @ []) = Some g"
    by blast
  from digits_step [OF this] obtain d3 s7 where d3: "d3 \<noteq> []" "list_all (is_digit py) d3"
    and "match_at py [GClose] s7 True (rev d3 @ 46 # rev d2 @ 46 # rev d1 @ []) = Some g"
    by blast
  then have "g = d1 @ 46 # d2 @ 46 # d3" by auto
  with d1 d2 d3 show ?thesis by blast
qed

lemma cost_group_2:
  assumes "match_at py (cost_patterns ! 1) s False [] = Some g"
  shows "\<exists>d1 d2. g = d1 @ 46 # d2 \<and> d1 \<noteq> [] \<and> list_all (is_digit py) d1
           \<and> d2 \<noteq> [] \<and> list_all (is_digit py) d2"
proof -
  from assms have "match_at py [One (Lit 8364), One (Lit 32), GOpen, Rep Digit 1 None, One (Lit 46),
      Rep Digit 1 None, GClose] s False [] = Some g"
    by (simp add: cost_patterns_def)
  from lit_step_out [OF this] obtain s1 where
    "match_at py [One (Lit 32), GOpen, Rep Digit 1 None, One (Lit 46),
      Rep Digit 1 None, GClose] s1 False [] = Some g" by blast
  from lit_step_out [OF this] obtain s2 where
    "match_at py (Rep Digit 1 None # [One (Lit 46), Rep Digit 1 None, GClose])
       s2 True [] = Some g" by auto
  from digits_step [OF this] obtain d1 s3 where d1: "d1 \<noteq> []" "list_all (is_digit py) d1"
    and "match_at py (One (Lit 46) # [Rep Digit 1 None, GClose])
       s3 True (rev d1 @ []) = Some g" by blast
  from lit_step_in [OF this(3)] obtain s4 where
    "match_at py (Rep Digit 1 None # [GClose]) s4 True (46 # rev d1 @ []) = Some g"
    by blast
  from digits_step [OF this] obtain d2 s5 where d2: "d2 \<noteq> []" "list_all (is_digit py) d2"
    and "match_at py [GClose] s5 True (rev d2 @ 46 # rev d1 @ []) = Some g"
    by blast
  then have "g = d1 @ 46 # d2" by auto
  with d1 d2 show ?thesis by blast
qed

lemma cost_group:
  assumes "extract_pattern py t cost_patterns = Some c"
  shows "c \<noteq> [] \<and> (\<exists>n. int_str py (filter (\<lambda>x. x \<noteq> 46) c) = Some n)"
proof -
  from assms have "search py (cost_patterns ! 0) t = Some c \<or> search py (cost_patterns ! 1) t = Some c"
    by (auto simp: cost_patterns_def split: option.splits)
  then obtain s where "match_at py (cost_patterns ! 0) s False [] = Some c
      \<or> match_at py (cost_patterns ! 1) s False [] = Some c"
    using search_match by blast
  then obtain ds where "ds \<noteq> []" "list_all (is_digit py) ds" "filter (\<lambda>x. x \<noteq> 46) c = ds" "c \<noteq> []"
  proof
    assume "match_at py (cost_patterns ! 0) s False [] = Some c"
    from cost_group_3 [OF this] obtain d1 d2 d3 where
      "c = d1 @ 46 # d2 @ 46 # d3" "d1 \<noteq> []" "list_all (is_digit py) d1"
      "list_all (is_digit py) d2" "list_all (is_digit py) d3" by blast
    then have "d1 @ d2 @ d3 \<noteq> []" "list_all (is_digit py) (d1 @ d2 @ d3)"
      "filter (\<lambda>x. x \<noteq> 46) c = d1 @ d2 @ d3" "c \<noteq> []"
      by (simp_all add: filter_dot_digits)
    then show ?thesis by (rule that)
  next
    assume "match_at py (cost_patterns ! 1) s False [] = Some c"
    from cost_group_2 [OF this] obtain d1 d2 where
      "c = d1 @ 46 # d2" "d1 \<noteq> []" "list_all (is_digit py) d1" "list_all (is_digit py) d2" by blast
    then have "d1 @ d2 \<noteq> []" "list_all (is_digit py) (d1 @ d2)"
      "filter (\<lambda>x. x \<noteq> 46) c = d1 @ d2" "c \<noteq> []"
      by (simp_all add: filter_dot_digits)
    then show ?thesis by (rule that)
  qed
  then show ?thesis using int_str_digits [of py ds] by simp
qed

section \<open>Facts about the fetch and the extraction\<close>

lemma get_page_Content:
  "web u = Content d \<Longrightarrow> get_page web u w = (Inr d, w\<lparr>requests := requests w @ [u]\<rparr>)"
  by (simp add: get_page_def)

lemma get_page_Timeout:
  "web u = Timeout \<Longrightarrow>
   get_page web u w = (Inr empty_doc, say (Timeout_reaching u) (w\<lparr>requests := requests w @ [u]\<rparr>))"
  by (simp add: get_page_def)

lemma get_page_Failure:
  "web u = Failure \<Longrightarrow> get_page web u w = (Inl RequestException, w\<lparr>requests := requests w @ [u]\<rparr>)"
  by (simp add: get_page_def)

lemma get_text_Content:
  "web u = Content d \<Longrightarrow>
   get_text web u w = (Inr (join_space (split (soup_text d))), w\<lparr>requests := requests w @ [u]\<rparr>)"
  by (simp add: get_text_def get_page_Content)

lemma get_text_Timeout:
  "web u = Timeout \<Longrightarrow>
   get_text web u w = (Inr [], say (Timeout_reaching u) (w\<lparr>requests := requests w @ [u]\<rparr>))"
  by (simp add: get_text_def get_page_Timeout empty_doc_def split_def)

lemma get_text_Failure:
  "web u = Failure \<Longrightarrow> get_text web u w = (Inl RequestException, w\<lparr>requests := requests w @ [u]\<rparr>)"
  by (simp add: get_text_def get_page_Failure)

lemma get_text_total:
  "web u \<noteq> Failure \<Longrightarrow> \<exists>text w1. get_text web u w = (Inr text, w1)"
  by (cases "web u") (simp_all add: get_text_Content get_text_Timeout)

lemma cost_step_total: "\<exists>v w'. cost_step py self u t w = (Inr v, w')"
proof (cases "extract_pattern py t cost_patterns")
  case None
  then show ?thesis by (simp add: cost_step_def)
next
  case (Some c)
  from cost_group [OF this] obtain n where "c \<noteq> []" "int_str py (filter (\<lambda>x. x \<noteq> 46) c) = Some n"
    by blast
  with Some show ?thesis by (simp add: cost_step_def Let_def)
qed

lemma get_data_unfold:
  assumes "get_text web u w = (Inr text, w1)"
  shows "\<exists>v w2 e w3 p w4.
           cost_step py self u (str_lower py text) w1 = (Inr v, w2)
         \<and> energy_step py self u (str_lower py text) w2 = (e, w3)
         \<and> car_step py self u (str_lower py text) w3 = (p, w4)
         \<and> get_data py web self u w =
             (Inr \<lparr> cost = v,
                    price_per_area = price_per_area_step py self v (area_step py self (str_lower py text)),
                    floor_h = floor_step py (str_lower py text), area = area_step py self (str_lower py text),
                    ultimo = contains (U ''ultimo'') (str_lower py text), url = u, energy = e,
                    posto_auto = p \<rparr>, w4)"
proof -
  obtain v w2 where 1: "cost_step py self u (str_lower py text) w1 = (Inr v, w2)"
    using cost_step_total by blast
  obtain e w3 where 2: "energy_step py self u (str_lower py text) w2 = (e, w3)"
    by (cases "energy_step py self u (str_lower py text) w2")
  obtain p w4 where 3: "car_step py self u (str_lower py text) w3 = (p, w4)"
    by (cases "car_step py self u (str_lower py text) w3")
  from assms 1 2 3 show ?thesis
    by (simp add: get_data_def Let_def)
qed


lemma get_data_fields:
  assumes "get_text web u w = (Inr text, w1)"
  shows "\<exists>h v w2 e w3 p w4.
           cost_step py self u (str_lower py text) w1 = (Inr v, w2)
         \<and> energy_step py self u (str_lower py text) w2 = (e, w3)
         \<and> car_step py self u (str_lower py text) w3 = (p, w4)
         \<and> get_data py web self u w = (Inr h, w4)
         \<and> cost h = v
         \<and> price_per_area h = price_per_area_step py self v (area_step py self (str_lower py text))
         \<and> floor_h h = floor_step py (str_lower py text)
         \<and> area h = area_step py self (str_lower py text)
         \<and> ultimo h = contains (U ''ultimo'') (str_lower py text)
         \<and> url h = u \<and> energy h = e \<and> posto_auto h = p"
proof -
  from get_data_unfold [OF assms, where py = py and self = self] obtain v w2 e w3 p w4 where
    "cost_step py self u (str_lower py text) w1 = (Inr v, w2)"
    "energy_step py self u (str_lower py text) w2 = (e, w3)"
    "car_step py self u (str_lower py text) w3 = (p, w4)"
    "get_data py web self u w =
       (Inr \<lparr> cost = v,
              price_per_area = price_per_area_step py self v (area_step py self (str_lower py text)),
              floor_h = floor_step py (str_lower py text), area = area_step py self (str_lower py text),
              ultimo = contains (U ''ultimo'') (str_lower py text), url = u, energy = e,
              posto_auto = p \<rparr>, w4)"
    by blast
  then show ?thesis by fastforce
qed

lemma energy_step_said:
  assumes "energy_step py self u t w = (e, w')"
  shows "requests w' = requests w \<and>
         (\<exists>ms. said w' = said w @ ms \<and> set ms \<subseteq> {Energy_pending u, Cant_get_energy u})"
proof -
  from assms have "w' = w \<or> w' = say (Energy_pending u) w \<or> w' = say (Cant_get_energy u) w"
    by (auto simp: energy_step_def Let_def split: option.splits list.splits if_splits)
  then show ?thesis
  proof (elim disjE)
    assume "w' = w"
    then have "requests w' = requests w \<and> said w' = said w @ [] \<and> set [] \<subseteq> {Energy_pending u, Cant_get_energy u}"
      by simp
    then show ?thesis by blast
  next
    assume "w' = say (Energy_pending u) w"
    then have "requests w' = requests w \<and> said w' = said w @ [Energy_pending u]
       \<and> set [Energy_pending u] \<subseteq> {Energy_pending u, Cant_get_energy u}"
      by (simp add: say_def)
    then show ?thesis by blast
  next
    assume "w' = say (Cant_get_energy u) w"
    then have "requests w' = requests w \<and> said w' = said w @ [Cant_get_energy u]
       \<and> set [Cant_get_energy u] \<subseteq> {Energy_pending u, Cant_get_energy u}"
      by (simp add: say_def)
    then show ?thesis by blast
  qed
qed

lemma car_step_said:
  assumes "car_step py self u t w = (p, w')"
  shows "requests w' = requests w \<and>
         (\<exists>ms. said w' = said w @ ms \<and> set ms \<subseteq> {Car_upon_request u})"
proof -
  from assms have "w' = w \<or> w' = say (Car_upon_request u) w"
    by (auto simp: car_step_def split: option.splits)
  then show ?thesis
  proof
    assume "w' = w"
    then have "requests w' = requests w \<and> said w' = said w @ [] \<and> set [] \<subseteq> {Car_upon_request u}"
      by simp
    then show ?thesis by blast
  next
    assume "w' = say (Car_upon_request u) w"
    then have "requests w' = requests w \<and> said w' = said w @ [Car_upon_request u]
       \<and> set [Car_upon_request u] \<subseteq> {Car_upon_request u}"
      by (simp add: say_def)
    then show ?thesis by blast
  qed
qed

lemma cost_step_matched:
  assumes "extract_pattern py t cost_patterns = Some c"
  shows "\<exists>n. int_str py (filter (\<lambda>x. x \<noteq> 46) c) = Some n \<and>
           cost_step py self u t w =
             (if n < min_house_cost self then (Inr PNone, say (Too_low_price n u) w)
              else (Inr (PStr (filter (\<lambda>x. x \<noteq> 46) c)), w))"
proof -
  from cost_group [OF assms] obtain n where "c \<noteq> []" "int_str py (filter (\<lambda>x. x \<noteq> 46) c) = Some n"
    by blast
  with assms show ?thesis by (simp add: cost_step_def Let_def)
qed

lemma cost_step_unmatched:
  assumes "extract_pattern py t cost_patterns = None"
  shows "cost_step py self u t w =
           (Inr (PFloat (price_not_found self)),
            say (if contains (U ''prezzo su richiesta'') t then Price_upon_request u
                 else Cant_get_price u) w)"
  using assms by (simp add: cost_step_def)


lemma steps_floor_not_found:
  "cost_step py (self\<lparr>floor_not_found := x\<rparr>) u t w = cost_step py self u t w"
  "area_step py (self\<lparr>floor_not_found := x\<rparr>) t = area_step py self t"
  "energy_step py (self\<lparr>floor_not_found := x\<rparr>) u t w = energy_step py self u t w"
  "car_step py (self\<lparr>floor_not_found := x\<rparr>) u t w = car_step py self u t w"
  "price_per_area_step py (self\<lparr>floor_not_found := x\<rparr>) v a = price_per_area_step py self v a"
  by (simp_all add: cost_step_def area_step_def energy_step_def car_step_def
      price_per_area_step_def Let_def split: option.splits sum.splits list.splits)

lemma get_data_floor_not_found:
  "get_data py web (self\<lparr>floor_not_found := x\<rparr>) sub_url w = get_data py web self sub_url w"
  unfolding get_data_def steps_floor_not_found by (rule refl)

lemma contains_capital: "contains [c] (U ''ABCDEF'') \<Longrightarrow> 65 \<le> c \<and> c \<le> 70"
  by (auto simp: U_def)

lemma energy_step_is_str: "\<exists>s. fst (energy_step py self u t w) = PStr s"
  by (auto simp: energy_step_def Let_def split: option.splits list.splits)

lemma energy_step_unmatched:
  "extract_pattern py t energy_patterns = None \<Longrightarrow>
   fst (energy_step py self u t w) = PStr (energy_not_found self)"
  by (simp add: energy_step_def)

text \<open>
  A lower-cased text holds none of the capital letters \<open>A\<close> to \<open>F\<close>, so the test for an
  accepted energy class never succeeds.
\<close>

lemma energy_step_lower:
  assumes "\<forall>s c. c \<in> set (str_lower py s) \<longrightarrow> \<not> (65 \<le> c \<and> c \<le> 70)"
  shows "fst (energy_step py self u (str_lower py tx) w) = PStr (energy_not_found self)"
proof (cases "extract_pattern py (str_lower py tx) energy_patterns")
  case None
  then show ?thesis by (simp add: energy_step_def)
next
  case (Some g)
  show ?thesis
  proof (cases g)
    case Nil
    with Some show ?thesis by (simp add: energy_step_def)
  next
    case (Cons c cs)
    with Some have "c \<in> set (str_lower py tx)"
      using extract_pattern_chars [of py "str_lower py tx" energy_patterns g] by auto
    then have "\<not> contains [c] (U ''ABCDEF'')"
      using assms contains_capital by blast
    with Some Cons show ?thesis by (simp add: energy_step_def)
  qed
qed

lemma energy_always_not_found:
  assumes "\<forall>s c. c \<in> set (str_lower py s) \<longrightarrow> \<not> (65 \<le> c \<and> c \<le> 70)"
    and "get_text web sub_url w = (Inr text, w1)"
  shows "\<exists>h w2. get_data py web self sub_url w = (Inr h, w2) \<and> energy h = PStr (energy_not_found self)"
proof -
  from get_data_fields [OF assms(2), where py = py and self = self] obtain h w2 e w3 w4 where
    "energy_step py self sub_url (str_lower py text) w2 = (e, w3)"
    "get_data py web self sub_url w = (Inr h, w4)" "energy h = e"
    by blast
  then show ?thesis
    using energy_step_lower [OF assms(1), where self = self and u = sub_url and tx = "text" and w = w2]
    by auto
qed

lemma some_decimals_ok:
  "some_decimals \<in> {d. \<forall>c v. d c = Some v \<longrightarrow> 128 \<le> c \<and> v < 10 \<and> \<not> is_space c}"
  by (auto simp: some_decimals_def is_space_def split: if_splits)

lemma py0_simps:
  "Rep_dectab (decimal py0) = some_decimals"
  "str_lower py0 = map lower_cp"
  "str_upper py0 = (\<lambda>s. concat (map upper_cp s))"
  by (simp_all add: py0_def Abs_dectab_inverse [OF some_decimals_ok])

text \<open>Unfolding the model on a concrete input.\<close>

lemmas eval_simps =
  U_def py0_simps some_decimals_def lower_cp_def upper_cp_def is_digit_def is_space_def
  is_space_ascii_def to_ascii_def split_def strip_def int_str_def lits_def cost_patterns_def
  floor_patterns_def area_pattern_def energy_patterns_def car_patterns_def
  car_on_request_pattern_def link_pattern_def match_at.simps(7) get_page_def get_text_def
  get_data_def cost_step_def floor_step_def area_step_def energy_step_def car_step_def
  price_per_area_step_def say_def w0_def one_page_def init_def empty_doc_def Let_def

section \<open>The claims\<close>

text \<open>
  C7.  For every page text that contains the phrase \<open>piano terra\<close>, the floor of the
  record is 1, whether or not a numeric floor pattern matched as well; the top-floor
  flag is the presence of \<open>ultimo\<close> in the text and does not depend on the override.
\<close>

theorem ground_floor_override:
  assumes "get_text web sub_url w = (Inr text, w1)"
    and "contains (U ''piano terra'') (str_lower py text)"
  shows "\<exists>h w2. get_data py web self sub_url w = (Inr h, w2) \<and> floor_h h = PInt 1
           \<and> ultimo h = contains (U ''ultimo'') (str_lower py text)"
proof -
  from get_data_unfold [OF assms(1), where py = py and self = self] obtain h w2 where
    "get_data py web self sub_url w = (Inr h, w2)" "floor_h h = floor_step py (str_lower py text)"
    "ultimo h = contains (U ''ultimo'') (str_lower py text)"
    by force
  moreover have "floor_step py (str_lower py text) = PInt 1"
    using assms(2) by (simp add: floor_step_def)
  ultimately show ?thesis by auto
qed

theorem ground_floor_override_witness:
  "get_text (one_page (U ''u'') (U ''Piano 3, Piano Terra'')) (U ''u'') w0
     = (Inr (U ''Piano 3, Piano Terra''), w0\<lparr>requests := [U ''u'']\<rparr>)
   \<and> contains (U ''piano terra'') (str_lower py0 (U ''Piano 3, Piano Terra''))
   \<and> extract_pattern py0 (str_lower py0 (U ''Piano 3, Piano Terra'')) floor_patterns = Some (U ''3'')
   \<and> (\<exists>h w2. get_data py0 (one_page (U ''u'') (U ''Piano 3, Piano Terra'')) (init (U ''s'')) (U ''u'') w0
               = (Inr h, w2) \<and> floor_h h = PInt 1
           \<and> ultimo h = contains (U ''ultimo'') (str_lower py0 (U ''Piano 3, Piano Terra'')))"
proof -
  have 1: "get_text (one_page (U ''u'') (U ''Piano 3, Piano Terra'')) (U ''u'') w0
     = (Inr (U ''Piano 3, Piano Terra''), w0\<lparr>requests := [U ''u'']\<rparr>)"
    by (simp add: eval_simps)
  have 2: "contains (U ''piano terra'') (str_lower py0 (U ''Piano 3, Piano Terra''))"
    by (simp add: eval_simps)
  have 3: "extract_pattern py0 (str_lower py0 (U ''Piano 3, Piano Terra'')) floor_patterns = Some (U ''3'')"
    by (simp add: eval_simps)
  from ground_floor_override [OF 1 2, where self = "init (U ''s'')"] 1 2 3 show ?thesis
    by blast
qed

text \<open>
  C1, as the code has it.  For every page text in which a cost pattern matches, the dots
  of the match are removed and the digits are read as an integer \<open>n\<close>.  If \<open>n\<close> is
  below \<open>min_house_cost\<close>, the cost of the record is \<open>None\<close> (neither \<open>n\<close> nor
  \<open>price_not_found\<close>) and the message of a too low price is logged, which is not the
  message of a price that was not found; otherwise the cost is the string of digits
  that denotes \<open>n\<close>, and no message about the price is logged.
\<close>

theorem cost_resolution:
  assumes "get_text web sub_url w = (Inr text, w1)"
    and "extract_pattern py (str_lower py text) cost_patterns = Some c"
  shows "\<exists>n h w2 rest.
           int_str py (filter (\<lambda>x. x \<noteq> 46) c) = Some n
         \<and> get_data py web self sub_url w = (Inr h, w2)
         \<and> cost h = (if n < min_house_cost self then PNone else PStr (filter (\<lambda>x. x \<noteq> 46) c))
         \<and> said w2 = said w1 @ (if n < min_house_cost self then [Too_low_price n sub_url] else []) @ rest
         \<and> set rest \<subseteq> {Energy_pending sub_url, Cant_get_energy sub_url, Car_upon_request sub_url}"
proof -
  let ?t = "str_lower py text"
  from get_data_fields [OF assms(1), where py = py and self = self] obtain h v w2 e w3 p w4 where
    c: "cost_step py self sub_url ?t w1 = (Inr v, w2)"
    and e: "energy_step py self sub_url ?t w2 = (e, w3)"
    and p: "car_step py self sub_url ?t w3 = (p, w4)"
    and g: "get_data py web self sub_url w = (Inr h, w4)" and h: "cost h = v"
    by blast
  from cost_step_matched [OF assms(2), where self = self and u = sub_url and w = w1] c obtain n where
    n: "int_str py (filter (\<lambda>x. x \<noteq> 46) c) = Some n"
    and v: "v = (if n < min_house_cost self then PNone else PStr (filter (\<lambda>x. x \<noteq> 46) c))"
    and w2: "said w2 = said w1 @ (if n < min_house_cost self then [Too_low_price n sub_url] else [])"
    by (auto simp: say_def split: if_splits)
  from energy_step_said [OF e] obtain ms where
    ms: "said w3 = said w2 @ ms" "set ms \<subseteq> {Energy_pending sub_url, Cant_get_energy sub_url}"
    by blast
  from car_step_said [OF p] obtain ns where
    ns: "said w4 = said w3 @ ns" "set ns \<subseteq> {Car_upon_request sub_url}"
    by blast
  have "said w4 = said w1 @ (if n < min_house_cost self then [Too_low_price n sub_url] else []) @ (ms @ ns)"
    using w2 ms(1) ns(1) by simp
  moreover have "set (ms @ ns) \<subseteq> {Energy_pending sub_url, Cant_get_energy sub_url, Car_upon_request sub_url}"
    using ms(2) ns(2) by auto
  moreover have "cost h = (if n < min_house_cost self then PNone else PStr (filter (\<lambda>x. x \<noteq> 46) c))"
    using h v by simp
  ultimately show ?thesis using n g by blast
qed

theorem cost_resolution_witness:
  "get_text (one_page (U ''u'') ([8364] @ U '' 50.000'')) (U ''u'') w0
     = (Inr ([8364] @ U '' 50.000''), w0\<lparr>requests := [U ''u'']\<rparr>)
   \<and> extract_pattern py0 (str_lower py0 ([8364] @ U '' 50.000'')) cost_patterns = Some (U ''50.000'')
   \<and> (\<exists>n h w2 rest.
         int_str py0 (filter (\<lambda>x. x \<noteq> 46) (U ''50.000'')) = Some n
       \<and> get_data py0 (one_page (U ''u'') ([8364] @ U '' 50.000''))
            ((init (U ''s''))\<lparr>min_house_cost := 100000\<rparr>) (U ''u'') w0 = (Inr h, w2)
       \<and> cost h = (if n < min_house_cost ((init (U ''s''))\<lparr>min_house_cost := 100000\<rparr>) then PNone
                   else PStr (filter (\<lambda>x. x \<noteq> 46) (U ''50.000'')))
       \<and> said w2 = said (w0\<lparr>requests := [U ''u'']\<rparr>)
            @ (if n < min_house_cost ((init (U ''s''))\<lparr>min_house_cost := 100000\<rparr>)
               then [Too_low_price n (U ''u'')] else []) @ rest
       \<and> set rest \<subseteq> {Energy_pending (U ''u''), Cant_get_energy (U ''u''), Car_upon_request (U ''u'')})"
proof -
  have 1: "get_text (one_page (U ''u'') ([8364] @ U '' 50.000'')) (U ''u'') w0
     = (Inr ([8364] @ U '' 50.000''), w0\<lparr>requests := [U ''u'']\<rparr>)"
    by (simp add: eval_simps)
  have 2: "extract_pattern py0 (str_lower py0 ([8364] @ U '' 50.000'')) cost_patterns = Some (U ''50.000'')"
    by (simp add: eval_simps)
  from cost_resolution [OF 1 2, where self = "(init (U ''s''))\<lparr>min_house_cost := 100000\<rparr>"] 1 2
  show ?thesis by blast
qed

text \<open>
  The text \<open>\<euro> 50.000\<close> with a minimum of 100000: the cost of the record is \<open>None\<close>,
  not the value \<open>price_not_found\<close>.
\<close>

theorem cost_below_minimum_counterexample:
  "get_data py0 (one_page (U ''u'') ([8364] @ U '' 50.000''))
      ((init (U ''s''))\<lparr>min_house_cost := 100000\<rparr>) (U ''u'') w0
     = (Inr \<lparr> cost = PNone, price_per_area = PInt 0, floor_h = PNone, area = PInt 0,
              ultimo = False, url = U ''u'', energy = PStr (U ''n/a''), posto_auto = PInt 0 \<rparr>,
        \<lparr> requests = [U ''u''],
          said = [Too_low_price 50000 (U ''u''), Cant_get_energy (U ''u'')] \<rparr>)
   \<and> PNone \<noteq> PFloat (price_not_found ((init (U ''s''))\<lparr>min_house_cost := 100000\<rparr>))"
  by (simp add: eval_simps)

text \<open>
  C2, as the code has it.  For every page text the fields \<open>price_per_area\<close>, \<open>area\<close>,
  \<open>energy\<close> and \<open>posto_auto\<close> of the record are never \<open>None\<close>, and each of \<open>cost\<close>,
  \<open>area\<close>, \<open>energy\<close> and \<open>posto_auto\<close> holds the value configured for it when nothing
  was found for it in the text.  The cost is \<open>None\<close> exactly when a cost pattern matched
  a value below \<open>min_house_cost\<close>.  (Nothing is said here about the floor.)
\<close>

theorem fields_non_null:
  assumes "get_text web sub_url w = (Inr text, w1)"
  shows "\<exists>h w2. get_data py web self sub_url w = (Inr h, w2)
      \<and> price_per_area h \<noteq> PNone \<and> area h \<noteq> PNone \<and> energy h \<noteq> PNone \<and> posto_auto h \<noteq> PNone
      \<and> (cost h = PNone \<longleftrightarrow>
           (\<exists>c n. extract_pattern py (str_lower py text) cost_patterns = Some c
                \<and> int_str py (filter (\<lambda>x. x \<noteq> 46) c) = Some n \<and> n < min_house_cost self))
      \<and> (extract_pattern py (str_lower py text) cost_patterns = None
           \<longrightarrow> cost h = PFloat (price_not_found self))
      \<and> (extract_pattern py (str_lower py text) [area_pattern] = None
           \<longrightarrow> area h = PInt (area_not_found self))
      \<and> (extract_pattern py (str_lower py text) energy_patterns = None
           \<longrightarrow> energy h = PStr (energy_not_found self))
      \<and> (extract_pattern py (str_lower py text) car_patterns = None
           \<and> search py car_on_request_pattern (str_lower py text) = None
           \<longrightarrow> posto_auto h = PInt (car_not_found self))"
proof -
  let ?t = "str_lower py text"
  from get_data_fields [OF assms(1), where py = py and self = self] obtain h v w2 e w3 p w4 where
    c: "cost_step py self sub_url ?t w1 = (Inr v, w2)"
    and e: "energy_step py self sub_url ?t w2 = (e, w3)"
    and p: "car_step py self sub_url ?t w3 = (p, w4)"
    and g: "get_data py web self sub_url w = (Inr h, w4)"
    and h: "cost h = v" "price_per_area h = price_per_area_step py self v (area_step py self ?t)"
      "area h = area_step py self ?t" "energy h = e" "posto_auto h = p"
    by blast
  have 1: "price_per_area h \<noteq> PNone"
    using h(2) by (simp add: price_per_area_step_def split: sum.splits)
  have 2: "area h \<noteq> PNone"
    using h(3) by (simp add: area_step_def split: option.splits)
  have 3: "energy h \<noteq> PNone"
    using h(4) e energy_step_is_str [of py self sub_url ?t w2] by auto
  have 9: "extract_pattern py ?t energy_patterns = None
           \<longrightarrow> energy h = PStr (energy_not_found self)"
    using h(4) e energy_step_unmatched [of py ?t self sub_url w2] by auto
  have 4: "posto_auto h \<noteq> PNone"
    using h(5) p by (auto simp: car_step_def split: option.splits)
  have 5: "cost h = PNone \<longleftrightarrow>
           (\<exists>c n. extract_pattern py ?t cost_patterns = Some c
                \<and> int_str py (filter (\<lambda>x. x \<noteq> 46) c) = Some n \<and> n < min_house_cost self)"
  proof (cases "extract_pattern py ?t cost_patterns")
    case None
    with c h(1) show ?thesis by (auto simp: cost_step_unmatched)
  next
    case (Some c')
    from cost_step_matched [OF Some, where self = self and u = sub_url and w = w1] c h(1) Some show ?thesis
      by (auto split: if_splits)
  qed
  have 6: "extract_pattern py ?t cost_patterns = None \<longrightarrow> cost h = PFloat (price_not_found self)"
    using c h(1) by (auto simp: cost_step_unmatched)
  have 7: "extract_pattern py ?t [area_pattern] = None \<longrightarrow> area h = PInt (area_not_found self)"
    using h(3) by (simp add: area_step_def)
  have 8: "extract_pattern py ?t car_patterns = None \<and> search py car_on_request_pattern ?t = None
           \<longrightarrow> posto_auto h = PInt (car_not_found self)"
    using h(5) p by (auto simp: car_step_def)
  from g 1 2 3 4 5 6 7 8 9 show ?thesis by auto
qed

theorem fields_non_null_witness:
  "get_text (one_page (U ''u'') (U ''Trilocale in vendita'')) (U ''u'') w0
     = (Inr (U ''Trilocale in vendita''), w0\<lparr>requests := [U ''u'']\<rparr>)
   \<and> get_data py0 (one_page (U ''u'') (U ''Trilocale in vendita''))
        ((init (U ''s''))\<lparr>area_not_found := - 1, car_not_found := - 2\<rparr>) (U ''u'') w0
     = (Inr \<lparr> cost = PFloat NaN, price_per_area = PInt 0, floor_h = PNone, area = PInt (- 1),
              ultimo = False, url = U ''u'', energy = PStr (U ''n/a''), posto_auto = PInt (- 2) \<rparr>,
        \<lparr> requests = [U ''u''],
          said = [Cant_get_price (U ''u''), Cant_get_energy (U ''u'')] \<rparr>)
   \<and> (\<exists>h w2. get_data py0 (one_page (U ''u'') (U ''Trilocale in vendita''))
                 ((init (U ''s''))\<lparr>area_not_found := - 1, car_not_found := - 2\<rparr>) (U ''u'') w0
               = (Inr h, w2)
         \<and> price_per_area h \<noteq> PNone \<and> area h \<noteq> PNone \<and> energy h \<noteq> PNone
         \<and> posto_auto h \<noteq> PNone \<and> cost h \<noteq> PNone)"
proof -
  let ?self = "(init (U ''s''))\<lparr>area_not_found := - 1, car_not_found := - 2\<rparr>"
  have 1: "get_text (one_page (U ''u'') (U ''Trilocale in vendita'')) (U ''u'') w0
     = (Inr (U ''Trilocale in vendita''), w0\<lparr>requests := [U ''u'']\<rparr>)"
    by (simp add: eval_simps)
  have 2: "get_data py0 (one_page (U ''u'') (U ''Trilocale in vendita'')) ?self (U ''u'') w0
     = (Inr \<lparr> cost = PFloat NaN, price_per_area = PInt 0, floor_h = PNone, area = PInt (- 1),
              ultimo = False, url = U ''u'', energy = PStr (U ''n/a''), posto_auto = PInt (- 2) \<rparr>,
        \<lparr> requests = [U ''u''],
          said = [Cant_get_price (U ''u''), Cant_get_energy (U ''u'')] \<rparr>)"
    by (simp add: eval_simps)
  from fields_non_null [OF 1, where py = py0 and self = ?self] obtain h w2 where
    "get_data py0 (one_page (U ''u'') (U ''Trilocale in vendita'')) ?self (U ''u'') w0 = (Inr h, w2)"
    "price_per_area h \<noteq> PNone" "area h \<noteq> PNone" "energy h \<noteq> PNone" "posto_auto h \<noteq> PNone"
    by blast
  moreover from this(1) 2 have "cost h \<noteq> PNone" by auto
  ultimately show ?thesis using 1 2 by blast
qed

text \<open>
  A price below the minimum: the text \<open>trilocale \<euro> 150.000 superficie 80 m\<close> with a
  minimum of 200000 gives a record whose cost is \<open>None\<close>.
\<close>

theorem cost_none_counterexample:
  "get_data py0 (one_page (U ''u'') (U ''Trilocale '' @ [8364] @ U '' 150.000 superficie 80 m''))
      ((init (U ''s''))\<lparr>min_house_cost := 200000\<rparr>) (U ''u'') w0
     = (Inr \<lparr> cost = PNone, price_per_area = PInt 0, floor_h = PNone, area = PStr (U ''80''),
              ultimo = False, url = U ''u'', energy = PStr (U ''n/a''), posto_auto = PInt 0 \<rparr>,
        \<lparr> requests = [U ''u''],
          said = [Too_low_price 150000 (U ''u''), Cant_get_energy (U ''u'')] \<rparr>)"
  by (simp add: eval_simps)

text \<open>
  C3.  The text of the page is lower-cased before the patterns are applied, and the
  captured class is then accepted only if it begins with one of the capital letters
  \<open>A\<close> to \<open>F\<close>.  On a page with the text \<open>Classe energetica B+ ipe 90\<close> the first
  pattern captures \<open>b+\<close>, which is not accepted: the energy class of the record is the
  value \<open>energy_not_found\<close> and the failure is logged, where \<open>B+\<close> was expected.
  By \<open>energy_always_not_found\<close> this is so on every page.
\<close>

theorem energy_b_plus_not_accepted:
  "extract_pattern py0 (str_lower py0 (U ''Classe energetica B+ ipe 90'')) energy_patterns = Some (U ''b+'')
   \<and> get_data py0 (one_page (U ''u'') (U ''Classe energetica B+ ipe 90'')) (init (U ''s'')) (U ''u'') w0
     = (Inr \<lparr> cost = PFloat NaN, price_per_area = PInt 0, floor_h = PNone, area = PInt 0,
              ultimo = False, url = U ''u'', energy = PStr (U ''n/a''), posto_auto = PInt 0 \<rparr>,
        \<lparr> requests = [U ''u''],
          said = [Cant_get_price (U ''u''), Cant_get_energy (U ''u'')] \<rparr>)"
  by (simp add: eval_simps)


text \<open>
  C10.  For every page text in which no floor pattern matches and \<open>piano terra\<close> does
  not occur, the floor of the record is \<open>None\<close>; the configured \<open>floor_not_found\<close> is
  never put into a record, so the record is the same for every value of it.
\<close>

theorem floor_none_without_match:
  assumes "get_text web sub_url w = (Inr text, w1)"
    and "extract_pattern py (str_lower py text) floor_patterns = None"
    and "\<not> contains (U ''piano terra'') (str_lower py text)"
  shows "\<exists>h w2. get_data py web self sub_url w = (Inr h, w2) \<and> floor_h h = PNone
           \<and> get_data py web (self\<lparr>floor_not_found := x\<rparr>) sub_url w = (Inr h, w2)"
proof -
  from get_data_fields [OF assms(1), where py = py and self = self] obtain h w2 where
    "get_data py web self sub_url w = (Inr h, w2)" "floor_h h = floor_step py (str_lower py text)"
    by blast
  moreover have "floor_step py (str_lower py text) = PNone"
    using assms(2,3) by (simp add: floor_step_def)
  ultimately show ?thesis
    by (simp add: get_data_floor_not_found)
qed

theorem floor_none_without_match_witness:
  "get_text (one_page (U ''u'') (U ''Bilocale al secondo livello'')) (U ''u'') w0
     = (Inr (U ''Bilocale al secondo livello''), w0\<lparr>requests := [U ''u'']\<rparr>)
   \<and> extract_pattern py0 (str_lower py0 (U ''Bilocale al secondo livello'')) floor_patterns = None
   \<and> \<not> contains (U ''piano terra'') (str_lower py0 (U ''Bilocale al secondo livello''))
   \<and> (\<exists>h w2. get_data py0 (one_page (U ''u'') (U ''Bilocale al secondo livello'')) (init (U ''s''))
                (U ''u'') w0 = (Inr h, w2) \<and> floor_h h = PNone
           \<and> get_data py0 (one_page (U ''u'') (U ''Bilocale al secondo livello''))
                ((init (U ''s''))\<lparr>floor_not_found := 7\<rparr>) (U ''u'') w0 = (Inr h, w2))"
proof -
  have 1: "get_text (one_page (U ''u'') (U ''Bilocale al secondo livello'')) (U ''u'') w0
     = (Inr (U ''Bilocale al secondo livello''), w0\<lparr>requests := [U ''u'']\<rparr>)"
    by (simp add: eval_simps)
  have 2: "extract_pattern py0 (str_lower py0 (U ''Bilocale al secondo livello'')) floor_patterns = None"
    by (simp add: eval_simps)
  have 3: "\<not> contains (U ''piano terra'') (str_lower py0 (U ''Bilocale al secondo livello''))"
    by (simp add: eval_simps)
  from floor_none_without_match [OF 1 2 3, where self = "init (U ''s'')" and x = 7] 1 2 3
  show ?thesis by blast
qed


end
